theory Spec2Isabelle
  imports Main
begin

section \<open>Error values\<close>

text \<open>
  The package \<^verbatim>\<open>gitprovider\<close> (file \<^verbatim>\<open>validation.go\<close>) works on values of Go's
  interface type \<^verbatim>\<open>error\<close>. An interface value is either \<^verbatim>\<open>nil\<close> or a pointer to an
  object of some dynamic type. Go compares two such pointers by identity, so every
  pointer carries the address of the object it points to; an allocation site takes the
  address of the fresh object as an argument.

  The dynamic types that occur are
  \<^item> \<^verbatim>\<open>*errors.errorString\<close>, made by \<^verbatim>\<open>errors.New\<close> (the sentinel causes);
  \<^item> \<^verbatim>\<open>*fmt.wrapError\<close>, made by \<^verbatim>\<open>fmt.Errorf\<close> with one \<^verbatim>\<open>%w\<close> verb: it stores the
    finished message and the wrapped error;
  \<^item> a caller's own leaf error type such as the \<^verbatim>\<open>*customError\<close> of the doc comment of
    \<^verbatim>\<open>MultiError\<close>, identified by a type number, without methods \<^verbatim>\<open>Is\<close>, \<^verbatim>\<open>As\<close> or
    \<^verbatim>\<open>Unwrap\<close>;
  \<^item> \<^verbatim>\<open>*MultiError\<close>, the struct of this package with its one field \<^verbatim>\<open>Errors []error\<close>.
  Method receivers are pointers to objects: a method call on a nil \<^verbatim>\<open>*MultiError\<close> is
  not modelled. A slice of errors may hold \<^verbatim>\<open>nil\<close> entries, as in Go.
\<close>

type_synonym addr = nat

datatype goerror =
    NilError
  | ErrorString addr string
  | WrapError addr string goerror
  | CustomError nat addr string
  | MultiErrorPtr addr MultiError
and MultiError = MultiError (Errors: "goerror list")

text \<open>The dynamic type of a non-nil error value (\<^verbatim>\<open>reflect.TypeOf\<close>).\<close>

datatype gotype = T_errorString | T_wrapError | T_customError nat | T_MultiError

fun TypeOf :: "goerror \<Rightarrow> gotype option" where
  "TypeOf NilError = None"
| "TypeOf (ErrorString a s) = Some T_errorString"
| "TypeOf (WrapError a msg e) = Some T_wrapError"
| "TypeOf (CustomError k a s) = Some (T_customError k)"
| "TypeOf (MultiErrorPtr a me) = Some T_MultiError"

text \<open>
  A run-time panic is a result of its own. The only panic the modelled code can raise is
  the method call \<^verbatim>\<open>err.Error()\<close> on a nil interface value.
\<close>

datatype panic = NilPointerDereference

subsection \<open>\<^verbatim>\<open>MultiError.Error\<close>: the rendering of an error\<close>

text \<open>
  \<^verbatim>\<open>Error_method\<close> is the dynamic dispatch of \<^verbatim>\<open>err.Error()\<close>. \<^verbatim>\<open>MultiError_Error\<close> is
  the method of lines 56 to 62; its \<^verbatim>\<open>for ... range e.Errors\<close> loop is
  \<^verbatim>\<open>MultiError_Error_range\<close>, with the variable \<^verbatim>\<open>errStr\<close> as the accumulator. The call
  \<^verbatim>\<open>err.Error()\<close> is evaluated before \<^verbatim>\<open>fmt.Sprintf\<close> is entered, so a panic there
  leaves the method.
\<close>

fun Error_method :: "goerror \<Rightarrow> panic + string"
and MultiError_Error :: "MultiError \<Rightarrow> panic + string"
and MultiError_Error_range :: "goerror list \<Rightarrow> string \<Rightarrow> panic + string"
where
  "Error_method NilError = Inl NilPointerDereference"
| "Error_method (ErrorString a s) = Inr s"
| "Error_method (WrapError a msg e) = Inr msg"
| "Error_method (CustomError k a s) = Inr s"
| "Error_method (MultiErrorPtr a me) = MultiError_Error me"
| "MultiError_Error (MultiError es) =
     (case MultiError_Error_range es [] of
        Inl p \<Rightarrow> Inl p
      | Inr errStr \<Rightarrow> Inr (''multiple errors occurred: '' @ errStr))"
| "MultiError_Error_range [] errStr = Inr errStr"
| "MultiError_Error_range (err # rest) errStr =
     (case Error_method err of
        Inl p \<Rightarrow> Inl p
      | Inr s \<Rightarrow> MultiError_Error_range rest (errStr @ (CHR 0x0A # ''- '' @ s)))"

subsection \<open>\<^verbatim>\<open>errors.Is\<close> and \<^verbatim>\<open>MultiError.Is\<close>\<close>

text \<open>
  \<^verbatim>\<open>errors.Is\<close> of the standard library returns \<^verbatim>\<open>err == target\<close> for a nil target and
  otherwise walks the chain of \<^verbatim>\<open>err\<close>: at each link it compares the link with the
  target (all dynamic types here are pointers, hence comparable), then asks the link's
  own \<^verbatim>\<open>Is\<close> method if it has one, then unwraps. Only \<^verbatim>\<open>*fmt.wrapError\<close> has an
  \<^verbatim>\<open>Unwrap\<close> method and only \<^verbatim>\<open>*MultiError\<close> has an \<^verbatim>\<open>Is\<close> method.

  \<^verbatim>\<open>MultiError_Is\<close> is the method of lines 66 to 80, \<^verbatim>\<open>MultiError_Is_range\<close> its loop
  with the early \<^verbatim>\<open>return true\<close>.
\<close>

fun errors_Is :: "goerror \<Rightarrow> goerror \<Rightarrow> bool"
and errors_Is_chain :: "goerror \<Rightarrow> goerror \<Rightarrow> bool"
and MultiError_Is :: "MultiError \<Rightarrow> goerror \<Rightarrow> bool"
and MultiError_Is_range :: "goerror list \<Rightarrow> goerror \<Rightarrow> bool"
where
  "errors_Is err target =
     (if target = NilError then err = target else errors_Is_chain err target)"
| "errors_Is_chain NilError target = False"
| "errors_Is_chain (ErrorString a s) target = (ErrorString a s = target)"
| "errors_Is_chain (CustomError k a s) target = (CustomError k a s = target)"
| "errors_Is_chain (WrapError a msg e) target =
     (if WrapError a msg e = target then True else errors_Is_chain e target)"
| "errors_Is_chain (MultiErrorPtr a me) target =
     (if MultiErrorPtr a me = target then True
      else if MultiError_Is me target then True
      else False)"
| "MultiError_Is (MultiError es) target =
     (case target of
        MultiErrorPtr b other \<Rightarrow> True
      | _ \<Rightarrow> MultiError_Is_range es target)"
| "MultiError_Is_range [] target = False"
| "MultiError_Is_range (err # rest) target =
     (if errors_Is err target then True else MultiError_Is_range rest target)"

subsection \<open>\<^verbatim>\<open>errors.As\<close> and \<^verbatim>\<open>MultiError.As\<close>\<close>

text \<open>
  The target of \<^verbatim>\<open>errors.As\<close> is a non-nil pointer to a slot of some type \<^verbatim>\<open>T\<close>, an
  interface type or a type that implements \<^verbatim>\<open>error\<close> (anything else makes the standard
  library panic before any error is looked at). The slot's type is represented by its
  assignability: the set of dynamic types whose values may be stored in it. The result
  \<^verbatim>\<open>Some v\<close> stands for the return value \<^verbatim>\<open>true\<close> with \<^verbatim>\<open>v\<close> written into the slot,
  \<^verbatim>\<open>None\<close> for \<^verbatim>\<open>false\<close> with the slot untouched.

  \<^verbatim>\<open>errors.As\<close> walks the chain while \<^verbatim>\<open>err != nil\<close>: it stores the link if its type is
  assignable, else asks the link's \<^verbatim>\<open>As\<close> method if it has one, else unwraps.
  \<^verbatim>\<open>MultiError_As\<close> is the method of lines 84 to 95.
\<close>

type_synonym target_type = "gotype \<Rightarrow> bool"

definition AssignableTo :: "goerror \<Rightarrow> target_type \<Rightarrow> bool" where
  "AssignableTo err T = (case TypeOf err of None \<Rightarrow> False | Some t \<Rightarrow> T t)"

fun errors_As :: "goerror \<Rightarrow> target_type \<Rightarrow> goerror option"
and MultiError_As :: "MultiError \<Rightarrow> target_type \<Rightarrow> goerror option"
and MultiError_As_range :: "goerror list \<Rightarrow> target_type \<Rightarrow> goerror option"
where
  "errors_As NilError T = None"
| "errors_As (ErrorString a s) T =
     (if AssignableTo (ErrorString a s) T then Some (ErrorString a s) else None)"
| "errors_As (CustomError k a s) T =
     (if AssignableTo (CustomError k a s) T then Some (CustomError k a s) else None)"
| "errors_As (WrapError a msg e) T =
     (if AssignableTo (WrapError a msg e) T then Some (WrapError a msg e)
      else errors_As e T)"
| "errors_As (MultiErrorPtr a me) T =
     (if AssignableTo (MultiErrorPtr a me) T then Some (MultiErrorPtr a me)
      else case MultiError_As me T of Some v \<Rightarrow> Some v | None \<Rightarrow> None)"
| "MultiError_As (MultiError es) T = MultiError_As_range es T"
| "MultiError_As_range [] T = None"
| "MultiError_As_range (err # rest) T =
     (case errors_As err T of Some v \<Rightarrow> Some v | None \<Rightarrow> MultiError_As_range rest T)"

text \<open>
  The errors that a type-directed extraction visits, in the order it visits them: the
  error itself, then what it wraps or holds.
\<close>

fun visited :: "goerror \<Rightarrow> goerror list"
and visited_list :: "goerror list \<Rightarrow> goerror list"
where
  "visited NilError = []"
| "visited (ErrorString a s) = [ErrorString a s]"
| "visited (CustomError k a s) = [CustomError k a s]"
| "visited (WrapError a msg e) = WrapError a msg e # visited e"
| "visited (MultiErrorPtr a (MultiError es)) =
     MultiErrorPtr a (MultiError es) # visited_list es"
| "visited_list [] = []"
| "visited_list (err # rest) = visited err @ visited_list rest"

section \<open>The error-list builder\<close>

subsection \<open>Library functions used by \<^verbatim>\<open>Append\<close>\<close>

text \<open>
  \<^verbatim>\<open>strings.Join\<close>: the empty string for no element, otherwise the first element followed
  by each further element with the separator before it.
\<close>

fun strings_Join :: "string list \<Rightarrow> string \<Rightarrow> string" where
  "strings_Join [] sep = []"
| "strings_Join (x # xs) sep = x @ concat (map (\<lambda>s. sep @ s) xs)"

text \<open>
  The parameter \<^verbatim>\<open>value interface{}\<close> is used in two ways only: it is compared with
  \<^verbatim>\<open>nil\<close>, and it is printed with the verb \<^verbatim>\<open>%v\<close>. A non-nil value is therefore
  represented by the text that package \<^verbatim>\<open>fmt\<close> prints for it under \<^verbatim>\<open>%v\<close>. An
  interface that holds a nil pointer is not the nil interface: it is a \<^verbatim>\<open>Value\<close> whose
  text is \<^verbatim>\<open><nil>\<close>.
\<close>

datatype interface = NilValue | Value string

fun fmt_v :: "interface \<Rightarrow> string" where
  "fmt_v NilValue = ''<nil>''"
| "fmt_v (Value s) = s"

text \<open>
  An error operand is printed through its \<^verbatim>\<open>Error\<close> method. Package \<^verbatim>\<open>fmt\<close> recovers a
  panic of that method and prints a note in its place.
\<close>

definition fmt_error_operand :: "goerror \<Rightarrow> string" where
  "fmt_error_operand err =
     (case Error_method err of
        Inr s \<Rightarrow> s
      | Inl p \<Rightarrow> ''%!v(PANIC=Error method: runtime error: '' @
                 ''invalid memory address or nil pointer dereference)'')"

text \<open>
  \<^verbatim>\<open>fmt.Errorf("validation error for %s%s: %w", fieldPath, valStr, err)\<close> for a non-nil
  \<^verbatim>\<open>err\<close>: a fresh \<^verbatim>\<open>*fmt.wrapError\<close> at address \<^verbatim>\<open>a\<close> that stores the message and
  wraps \<^verbatim>\<open>err\<close>.
\<close>

definition fmt_Errorf :: "addr \<Rightarrow> string \<Rightarrow> string \<Rightarrow> goerror \<Rightarrow> goerror" where
  "fmt_Errorf a fieldPath valStr err =
     WrapError a (''validation error for '' @ fieldPath @ valStr @ '': '' @
                  fmt_error_operand err) err"

subsection \<open>The sentinel causes\<close>

text \<open>
  Modelled from the spec: the sentinel causes \<^verbatim>\<open>ErrFieldRequired\<close> and
  \<^verbatim>\<open>ErrFieldInvalid\<close>, which \<^verbatim>\<open>Required\<close> and \<^verbatim>\<open>Invalid\<close> pass to \<^verbatim>\<open>Append\<close>, are
  declared in a file that is not among the sources. The spec (section 3, Failure Kind)
  calls them \<^verbatim>\<open>FieldRequired\<close> and \<^verbatim>\<open>FieldInvalid\<close>: distinguishable, comparable error
  values, not formatted strings. They are two \<^verbatim>\<open>errors.New\<close> values at different
  addresses. The spec does not give their message texts; the name of the kind stands
  for the text, and no theorem below depends on it.
\<close>

definition ErrFieldRequired :: goerror where
  "ErrFieldRequired = ErrorString 1 ''FieldRequired''"

definition ErrFieldInvalid :: goerror where
  "ErrFieldInvalid = ErrorString 2 ''FieldInvalid''"

subsection \<open>The builder and its recorders\<close>

record validationErrorList =
  name :: string
  errs :: "goerror list"

definition newValidationErrorList :: "string \<Rightarrow> validationErrorList" where
  "newValidationErrorList n = \<lparr>name = n, errs = []\<rparr>"

text \<open>
  \<^verbatim>\<open>Append\<close>, lines 130 to 145. The first argument is the address of the error that
  \<^verbatim>\<open>fmt.Errorf\<close> allocates. The method mutates the builder; the model returns the builder
  after the call.
\<close>

definition validationErrorList_Append ::
  "addr \<Rightarrow> validationErrorList \<Rightarrow> goerror \<Rightarrow> interface \<Rightarrow> string list \<Rightarrow> validationErrorList"
where
  "validationErrorList_Append a el err val fieldPaths =
     (if err = NilError then el
      else
        let fieldPath = strings_Join (name el # fieldPaths) ''.'';
            valStr = (if val \<noteq> NilValue then '' (value: '' @ fmt_v val @ '')'' else [])
        in el\<lparr>errs := errs el @ [fmt_Errorf a fieldPath valStr err]\<rparr>)"

text \<open>\<^verbatim>\<open>Required\<close>, lines 117 to 119, and \<^verbatim>\<open>Invalid\<close>, lines 124 to 126.\<close>

definition validationErrorList_Required ::
  "addr \<Rightarrow> validationErrorList \<Rightarrow> string list \<Rightarrow> validationErrorList"
where
  "validationErrorList_Required a el fieldPaths =
     validationErrorList_Append a el ErrFieldRequired NilValue fieldPaths"

definition validationErrorList_Invalid ::
  "addr \<Rightarrow> validationErrorList \<Rightarrow> interface \<Rightarrow> string list \<Rightarrow> validationErrorList"
where
  "validationErrorList_Invalid a el val fieldPaths =
     validationErrorList_Append a el ErrFieldInvalid val fieldPaths"

text \<open>
  \<^verbatim>\<open>Error\<close>, lines 151 to 174. \<^verbatim>\<open>filteredErrs_range\<close> is the loop of lines 159 to 163
  with \<^verbatim>\<open>filteredErrs\<close> as the accumulator. The first argument is the address of the
  \<^verbatim>\<open>MultiError\<close> that the last line allocates.
\<close>

fun filteredErrs_range :: "goerror list \<Rightarrow> goerror list \<Rightarrow> goerror list" where
  "filteredErrs_range [] filteredErrs = filteredErrs"
| "filteredErrs_range (err # rest) filteredErrs =
     (if err \<noteq> NilError then filteredErrs_range rest (filteredErrs @ [err])
      else filteredErrs_range rest filteredErrs)"

definition validationErrorList_Error :: "addr \<Rightarrow> validationErrorList \<Rightarrow> goerror" where
  "validationErrorList_Error a el =
     (if length (errs el) = 0 then NilError
      else
        let filteredErrs = filteredErrs_range (errs el) []
        in if length filteredErrs = 0 then NilError
           else if length filteredErrs = 1 then filteredErrs ! 0
           else MultiErrorPtr a (MultiError filteredErrs))"

subsection \<open>Sequences of recorder calls\<close>

text \<open>
  A validation pass creates a builder and calls its recorders some number of times. A
  call is described by its method and arguments, the first being the address that the
  call's \<^verbatim>\<open>fmt.Errorf\<close> allocates if it gets that far.
\<close>

datatype recorder_call =
    CallRequired addr "string list"
  | CallInvalid addr interface "string list"
  | CallAppend addr goerror interface "string list"

fun perform :: "validationErrorList \<Rightarrow> recorder_call \<Rightarrow> validationErrorList" where
  "perform el (CallRequired a fieldPaths) = validationErrorList_Required a el fieldPaths"
| "perform el (CallInvalid a val fieldPaths) = validationErrorList_Invalid a el val fieldPaths"
| "perform el (CallAppend a err val fieldPaths) =
     validationErrorList_Append a el err val fieldPaths"

definition recorded :: "string \<Rightarrow> recorder_call list \<Rightarrow> validationErrorList" where
  "recorded n calls = foldl perform (newValidationErrorList n) calls"

text \<open>The cause that a call hands to \<^verbatim>\<open>Append\<close>; the call records a failure if it is not nil.\<close>

fun cause :: "recorder_call \<Rightarrow> goerror" where
  "cause (CallRequired a fieldPaths) = ErrFieldRequired"
| "cause (CallInvalid a val fieldPaths) = ErrFieldInvalid"
| "cause (CallAppend a err val fieldPaths) = err"

definition failures :: "recorder_call list \<Rightarrow> nat" where
  "failures calls = length (filter (\<lambda>c. cause c \<noteq> NilError) calls)"

text \<open>
  An error as \<^verbatim>\<open>Append\<close> records it: a \<^verbatim>\<open>*fmt.wrapError\<close> around a cause that is not nil.
\<close>

definition wrapped :: "goerror \<Rightarrow> bool" where
  "wrapped e = (case e of WrapError a msg c \<Rightarrow> c \<noteq> NilError | _ \<Rightarrow> False)"

section \<open>A validation operation\<close>

text \<open>
  Modelled from the spec: the method \<^verbatim>\<open>DeployKey.ValidateCreate\<close>, which the test
  \<^verbatim>\<open>TestDeployKey_Validate\<close> calls, is not among the sources, nor is the struct
  \<^verbatim>\<open>DeployKey\<close>. The spec (section 3) describes a deploy-key record of a name, key
  material and an optional reference to the owning repository. Its section 4.3 gives the
  operation: create a builder scoped to the name \<^verbatim>\<open>DeployKey\<close>; run the required checks
  of the operation, recording each failure with \<^verbatim>\<open>Required\<close> and going on after a
  failure; if the repository reference is present, validate it and fold a resulting
  error into the same builder under the name of the embedding field; resolve the
  builder. Scenario A of section 8 names the two checks of Create and their field paths,
  \<^verbatim>\<open>DeployKey.Name\<close> and \<^verbatim>\<open>DeployKey.Key\<close>. The spec leaves open how a repository
  reference is validated, so that check is the parameter \<^verbatim>\<open>validateRef\<close>. The
  allocations of the pass take the addresses from \<^verbatim>\<open>h\<close> on.
\<close>

record 'r DeployKey =
  Name :: string
  Key :: string
  Repository :: "'r option"

definition DeployKey_ValidateCreate ::
  "('r \<Rightarrow> goerror) \<Rightarrow> addr \<Rightarrow> 'r DeployKey \<Rightarrow> goerror"
where
  "DeployKey_ValidateCreate validateRef h dk =
     (let el0 = newValidationErrorList ''DeployKey'';
          el1 = (if length (Name dk) = 0
                 then validationErrorList_Required h el0 [''Name''] else el0);
          el2 = (if length (Key dk) = 0
                 then validationErrorList_Required (h + 1) el1 [''Key''] else el1);
          el3 = (case Repository dk of
                   None \<Rightarrow> el2
                 | Some r \<Rightarrow>
                     validationErrorList_Append (h + 2) el2 (validateRef r) NilValue
                       [''Repository''])
      in validationErrorList_Error (h + 3) el3)"

section \<open>Resolving a builder\<close>

lemma filteredErrs_range_filter:
  "filteredErrs_range es acc = acc @ filter (\<lambda>e. e \<noteq> NilError) es"
  by (induction es arbitrary: acc) simp_all

lemma validationErrorList_Error_filter:
  "validationErrorList_Error a el =
     (case filter (\<lambda>e. e \<noteq> NilError) (errs el) of
        [] \<Rightarrow> NilError
      | [e] \<Rightarrow> e
      | e # e' # rest \<Rightarrow> MultiErrorPtr a (MultiError (e # e' # rest)))"
  by (simp add: validationErrorList_Error_def filteredErrs_range_filter Let_def
      split: list.splits)

text \<open>
  Claim C1. For every builder, \<^verbatim>\<open>Error()\<close> returns \<^verbatim>\<open>nil\<close> when the recorded errors
  without their nil entries are empty, returns the sole error itself when exactly one
  remains, and otherwise returns a newly allocated \<^verbatim>\<open>*MultiError\<close> that holds all of
  the remaining errors in the order in which they were recorded.
\<close>

theorem Error_resolves:
  fixes el :: validationErrorList
  defines "fs \<equiv> filter (\<lambda>e. e \<noteq> NilError) (errs el)"
  shows "(fs = [] \<longrightarrow> validationErrorList_Error a el = NilError) \<and>
         (\<forall>e. fs = [e] \<longrightarrow> validationErrorList_Error a el = e) \<and>
         (2 \<le> length fs \<longrightarrow>
            validationErrorList_Error a el = MultiErrorPtr a (MultiError fs))"
  unfolding fs_def validationErrorList_Error_filter
  by (auto split: list.splits)

theorem Error_resolves_witness:
  "validationErrorList_Error 9 \<lparr>name = ''DeployKey'', errs = [NilError]\<rparr> = NilError \<and>
   validationErrorList_Error 9
     \<lparr>name = ''DeployKey'', errs = [NilError, ErrorString 7 ''first'']\<rparr> =
     ErrorString 7 ''first'' \<and>
   validationErrorList_Error 9
     \<lparr>name = ''DeployKey'',
      errs = [ErrorString 7 ''first'', NilError, ErrorString 8 ''second'']\<rparr> =
     MultiErrorPtr 9 (MultiError [ErrorString 7 ''first'', ErrorString 8 ''second''])"
  using Error_resolves [of "\<lparr>name = ''DeployKey'', errs = [NilError]\<rparr>" 9]
    Error_resolves [of "\<lparr>name = ''DeployKey'', errs = [NilError, ErrorString 7 ''first'']\<rparr>" 9]
    Error_resolves [of "\<lparr>name = ''DeployKey'',
      errs = [ErrorString 7 ''first'', NilError, ErrorString 8 ''second'']\<rparr>" 9]
  by simp

section \<open>Matching against an aggregate\<close>

lemma MultiError_Is_range_iff:
  "MultiError_Is_range es target = (\<exists>err \<in> set es. errors_Is err target)"
  by (induction es) auto

text \<open>
  Claim C3. For every \<^verbatim>\<open>*MultiError\<close> \<^verbatim>\<open>e\<close> and every target, \<^verbatim>\<open>e.Is(target)\<close> is true
  when the target is itself a \<^verbatim>\<open>*MultiError\<close>, whatever either of the two holds, and is
  otherwise true exactly when \<^verbatim>\<open>errors.Is\<close> succeeds on at least one of the errors
  that \<^verbatim>\<open>e\<close> holds.
\<close>

theorem MultiError_Is_spec:
  "MultiError_Is e target =
     (if (\<exists>b other. target = MultiErrorPtr b other) then True
      else (\<exists>err \<in> set (Errors e). errors_Is err target))"
  by (cases e; cases target) (simp_all add: MultiError_Is_range_iff del: errors_Is.simps)

theorem MultiError_Is_spec_witness:
  "MultiError_Is
     (MultiError [ErrorString 2 ''FieldInvalid'',
                  WrapError 5 ''validation error for DeployKey.Name: FieldRequired''
                    (ErrorString 1 ''FieldRequired'')])
     (ErrorString 1 ''FieldRequired'') \<and>
   \<not> MultiError_Is (MultiError [ErrorString 2 ''FieldInvalid''])
       (ErrorString 1 ''FieldRequired'') \<and>
   MultiError_Is (MultiError []) (MultiErrorPtr 6 (MultiError [NilError]))"
  using MultiError_Is_spec [of "MultiError [ErrorString 2 ''FieldInvalid'',
        WrapError 5 ''validation error for DeployKey.Name: FieldRequired''
          (ErrorString 1 ''FieldRequired'')]" "ErrorString 1 ''FieldRequired''"]
    MultiError_Is_spec [of "MultiError [ErrorString 2 ''FieldInvalid'']"
      "ErrorString 1 ''FieldRequired''"]
    MultiError_Is_spec [of "MultiError []" "MultiErrorPtr 6 (MultiError [NilError])"]
  by simp

lemma MultiError_As_range_None:
  "MultiError_As_range es T = None \<longleftrightarrow> (\<forall>err \<in> set es. errors_As err T = None)"
  by (induction es) (auto split: option.splits)

lemma MultiError_As_range_first:
  "MultiError_As_range es T = Some v \<longleftrightarrow>
     (\<exists>i < length es. errors_As (es ! i) T = Some v \<and> (\<forall>j < i. errors_As (es ! j) T = None))"
proof (induction es)
  case Nil
  then show ?case by simp
next
  case (Cons x xs)
  show ?case
  proof (cases "errors_As x T")
    case None
    have "(\<exists>i < length (x # xs). errors_As ((x # xs) ! i) T = Some v \<and>
              (\<forall>j < i. errors_As ((x # xs) ! j) T = None)) \<longleftrightarrow>
          (\<exists>i < length xs. errors_As (xs ! i) T = Some v \<and>
              (\<forall>j < i. errors_As (xs ! j) T = None))" (is "?L \<longleftrightarrow> ?R")
    proof
      assume ?L
      then obtain i where i: "i < length (x # xs)" "errors_As ((x # xs) ! i) T = Some v"
        "\<forall>j < i. errors_As ((x # xs) ! j) T = None" by blast
      with None obtain k where k: "i = Suc k" by (cases i) auto
      have "\<forall>j < k. errors_As (xs ! j) T = None"
      proof (intro allI impI)
        fix j assume "j < k"
        then have "Suc j < i" using k by simp
        then have "errors_As ((x # xs) ! Suc j) T = None" using i(3) by blast
        then show "errors_As (xs ! j) T = None" by simp
      qed
      with i k show ?R by auto
    next
      assume ?R
      then obtain i where i: "i < length xs" "errors_As (xs ! i) T = Some v"
        "\<forall>j < i. errors_As (xs ! j) T = None" by blast
      have "\<forall>j < Suc i. errors_As ((x # xs) ! j) T = None"
      proof (intro allI impI)
        fix j assume "j < Suc i"
        then show "errors_As ((x # xs) ! j) T = None"
          using None i(3) by (cases j) auto
      qed
      with i show ?L by (intro exI[of _ "Suc i"]) simp
    qed
    with None Cons show ?thesis by simp
  next
    case (Some w)
    have "(\<exists>i < length (x # xs). errors_As ((x # xs) ! i) T = Some v \<and>
              (\<forall>j < i. errors_As ((x # xs) ! j) T = None)) \<longleftrightarrow> w = v" (is "?L \<longleftrightarrow> _")
    proof
      assume ?L
      then obtain i where i: "i < length (x # xs)" "errors_As ((x # xs) ! i) T = Some v"
        "\<forall>j < i. errors_As ((x # xs) ! j) T = None" by blast
      have "i = 0"
      proof (rule ccontr)
        assume "i \<noteq> 0"
        then have "errors_As ((x # xs) ! 0) T = None" using i(3) by blast
        with Some show False by simp
      qed
      with i(2) Some show "w = v" by simp
    next
      assume "w = v"
      with Some show ?L by (intro exI[of _ 0]) simp
    qed
    with Some show ?thesis by simp
  qed
qed

lemma find_over_append:
  "List.find P (xs @ ys) = (case List.find P xs of Some v \<Rightarrow> Some v | None \<Rightarrow> List.find P ys)"
  by (induction xs) auto

lemma visited_MultiErrorPtr:
  "visited (MultiErrorPtr a me) = MultiErrorPtr a me # visited_list (Errors me)"
  by (cases me) simp

lemma errors_As_visited:
  "errors_As err T = List.find (\<lambda>y. AssignableTo y T) (visited err)"
  "MultiError_As me T = List.find (\<lambda>y. AssignableTo y T) (visited_list (Errors me))"
  "MultiError_As_range es T = List.find (\<lambda>y. AssignableTo y T) (visited_list es)"
  by (induction err T and me T and es T
      rule: errors_As_MultiError_As_MultiError_As_range.induct)
     (auto simp: find_over_append visited_MultiErrorPtr split: option.splits)

text \<open>
  Claim C4. For every \<^verbatim>\<open>*MultiError\<close> \<^verbatim>\<open>e\<close> and every target slot, \<^verbatim>\<open>e.As(target)\<close> goes
  through \<^verbatim>\<open>e.Errors\<close> in order and tries \<^verbatim>\<open>errors.As\<close> on each held error. It
  returns false, with nothing written, exactly when \<^verbatim>\<open>errors.As\<close> fails on every held
  error. It returns true with \<^verbatim>\<open>v\<close> written exactly when \<^verbatim>\<open>errors.As\<close> writes \<^verbatim>\<open>v\<close> for
  some held error and fails for all the held errors before it. The search goes into
  wrapped errors and nested aggregates: the value written is the first error, in the
  order of the visit, whose type is assignable to the type of the slot.
\<close>

theorem MultiError_As_spec:
  "(MultiError_As e T = None \<longleftrightarrow> (\<forall>err \<in> set (Errors e). errors_As err T = None)) \<and>
   (\<forall>v. MultiError_As e T = Some v \<longleftrightarrow>
      (\<exists>i < length (Errors e). errors_As (Errors e ! i) T = Some v \<and>
         (\<forall>j < i. errors_As (Errors e ! j) T = None))) \<and>
   MultiError_As e T = List.find (\<lambda>y. AssignableTo y T) (visited_list (Errors e))"
proof (cases e)
  case (MultiError es)
  show ?thesis
    unfolding MultiError
    using MultiError_As_range_None [of es T] MultiError_As_range_first [of es T]
      errors_As_visited(3) [of es T]
    by simp
qed

theorem MultiError_As_spec_witness:
  "MultiError_As
     (MultiError [ErrorString 1 ''FieldRequired'',
                  MultiErrorPtr 3 (MultiError
                    [WrapError 4 ''outer: custom my-value'' (CustomError 7 5 ''custom my-value'')]),
                  CustomError 7 6 ''custom later''])
     (\<lambda>t. t = T_customError 7) = Some (CustomError 7 5 ''custom my-value'') \<and>
   MultiError_As (MultiError [ErrorString 1 ''FieldRequired'', NilError])
     (\<lambda>t. t = T_customError 7) = None"
  using MultiError_As_spec [of "MultiError [ErrorString 1 ''FieldRequired'',
        MultiErrorPtr 3 (MultiError
          [WrapError 4 ''outer: custom my-value'' (CustomError 7 5 ''custom my-value'')]),
        CustomError 7 6 ''custom later'']" "\<lambda>t. t = T_customError 7"]
    MultiError_As_spec [of "MultiError [ErrorString 1 ''FieldRequired'', NilError]"
      "\<lambda>t. t = T_customError 7"]
  by (simp add: AssignableTo_def)

section \<open>Recording a failure\<close>

lemma Append_nil:
  "validationErrorList_Append a el NilError val fieldPaths = el"
  by (simp add: validationErrorList_Append_def)

lemma Append_recorded:
  "err \<noteq> NilError \<Longrightarrow>
   validationErrorList_Append a el err val fieldPaths =
     el\<lparr>errs := errs el @
       [WrapError a
          (''validation error for '' @ strings_Join (name el # fieldPaths) ''.'' @
           (if val = NilValue then [] else '' (value: '' @ fmt_v val @ '')'') @
           '': '' @ fmt_error_operand err) err]\<rparr>"
  by (simp add: validationErrorList_Append_def fmt_Errorf_def Let_def)

lemma sentinels_not_nil:
  "ErrFieldRequired \<noteq> NilError" "ErrFieldInvalid \<noteq> NilError"
  by (simp_all add: ErrFieldRequired_def ErrFieldInvalid_def)

lemma errors_Is_wrapped_cause:
  "err \<noteq> NilError \<Longrightarrow> errors_Is err err"
  by (cases err) simp_all

lemma errors_Is_WrapError_cause:
  "err \<noteq> NilError \<Longrightarrow> errors_Is (WrapError a msg err) err"
  using errors_Is_wrapped_cause [of err] by simp

text \<open>
  Claim C5. For every builder, value and list of field-path segments, \<^verbatim>\<open>Append\<close> with a
  nil cause leaves the builder as it was, so the result of \<^verbatim>\<open>Error()\<close> is the same with
  and without the call, whether \<^verbatim>\<open>Error()\<close> is called at once or after further recorder
  calls.
\<close>

theorem Append_nil_noop:
  "validationErrorList_Append a el NilError val fieldPaths = el \<and>
   validationErrorList_Error b (validationErrorList_Append a el NilError val fieldPaths) =
     validationErrorList_Error b el \<and>
   validationErrorList_Error b
     (foldl perform (validationErrorList_Append a el NilError val fieldPaths) later) =
     validationErrorList_Error b (foldl perform el later)"
  by (simp add: Append_nil)

theorem Append_nil_noop_witness:
  "validationErrorList_Append 4
     \<lparr>name = ''DeployKey'', errs = [ErrorString 7 ''first'']\<rparr> NilError (Value ''42'')
     [''Key''] = \<lparr>name = ''DeployKey'', errs = [ErrorString 7 ''first'']\<rparr> \<and>
   validationErrorList_Error 9
     (validationErrorList_Append 4
        \<lparr>name = ''DeployKey'', errs = [ErrorString 7 ''first'']\<rparr> NilError (Value ''42'')
        [''Key'']) = ErrorString 7 ''first''"
  using Append_nil_noop [of 4 "\<lparr>name = ''DeployKey'', errs = [ErrorString 7 ''first'']\<rparr>"
      "Value ''42''" "[''Key'']" 9 "[]"]
  by (simp add: validationErrorList_Error_def)

text \<open>
  Claim C6. For every builder with name \<^verbatim>\<open>n\<close> and every list of segments,
  \<^verbatim>\<open>Required\<close> appends exactly one error. The diagnostic string of that error is
  \<^verbatim>\<open>validation error for\<close>, the field path, a colon and the text of the cause, with no
  value suffix in between; the field path is \<^verbatim>\<open>n\<close> followed by the segments, joined by
  dots; and \<^verbatim>\<open>errors.Is\<close> finds the sentinel \<^verbatim>\<open>ErrFieldRequired\<close> in the error.
\<close>

theorem Required_records:
  "\<exists>e m. validationErrorList_Required a el fieldPaths = el\<lparr>errs := errs el @ [e]\<rparr> \<and>
      Error_method ErrFieldRequired = Inr m \<and>
      Error_method e =
        Inr (''validation error for '' @ strings_Join (name el # fieldPaths) ''.'' @
             '': '' @ m) \<and>
      errors_Is e ErrFieldRequired"
proof -
  obtain m where m: "Error_method ErrFieldRequired = Inr m"
    by (simp add: ErrFieldRequired_def)
  define e where "e = WrapError a
    (''validation error for '' @ strings_Join (name el # fieldPaths) ''.'' @ '': '' @ m)
    ErrFieldRequired"
  have "validationErrorList_Required a el fieldPaths = el\<lparr>errs := errs el @ [e]\<rparr>"
    unfolding validationErrorList_Required_def e_def
    using Append_recorded [OF sentinels_not_nil(1), of a el NilValue fieldPaths] m
    by (simp add: fmt_error_operand_def)
  moreover have "Error_method e =
      Inr (''validation error for '' @ strings_Join (name el # fieldPaths) ''.'' @
           '': '' @ m)"
    by (simp add: e_def)
  moreover have "errors_Is e ErrFieldRequired"
    unfolding e_def by (rule errors_Is_WrapError_cause [OF sentinels_not_nil(1)])
  ultimately show ?thesis using m by blast
qed

theorem Required_records_witness:
  "\<exists>e m. validationErrorList_Required 4 \<lparr>name = ''DeployKey'', errs = []\<rparr>
        [''Repository'', ''Name''] = \<lparr>name = ''DeployKey'', errs = [e]\<rparr> \<and>
      Error_method ErrFieldRequired = Inr m \<and>
      Error_method e = Inr (''validation error for DeployKey.Repository.Name: '' @ m) \<and>
      errors_Is e ErrFieldRequired"
  using Required_records [of 4 "\<lparr>name = ''DeployKey'', errs = []\<rparr>"
      "[''Repository'', ''Name'']"]
  by simp

text \<open>
  Claim C7. For every builder and every call of \<^verbatim>\<open>Invalid\<close>, exactly one error is
  appended, \<^verbatim>\<open>errors.Is\<close> finds the sentinel \<^verbatim>\<open>ErrFieldInvalid\<close> in it, and its diagnostic
  string has the suffix \<^verbatim>\<open> (value: v)\<close> with the formatted value after the field path
  exactly when the value is not nil.
\<close>

theorem Invalid_records:
  "\<exists>e m. validationErrorList_Invalid a el val fieldPaths = el\<lparr>errs := errs el @ [e]\<rparr> \<and>
      Error_method ErrFieldInvalid = Inr m \<and>
      Error_method e =
        Inr (''validation error for '' @ strings_Join (name el # fieldPaths) ''.'' @
             (if val = NilValue then [] else '' (value: '' @ fmt_v val @ '')'') @
             '': '' @ m) \<and>
      errors_Is e ErrFieldInvalid"
proof -
  obtain m where m: "Error_method ErrFieldInvalid = Inr m"
    by (simp add: ErrFieldInvalid_def)
  define e where "e = WrapError a
    (''validation error for '' @ strings_Join (name el # fieldPaths) ''.'' @
     (if val = NilValue then [] else '' (value: '' @ fmt_v val @ '')'') @ '': '' @ m)
    ErrFieldInvalid"
  have "validationErrorList_Invalid a el val fieldPaths = el\<lparr>errs := errs el @ [e]\<rparr>"
    unfolding validationErrorList_Invalid_def e_def
    using Append_recorded [OF sentinels_not_nil(2), of a el val fieldPaths] m
    by (simp add: fmt_error_operand_def)
  moreover have "Error_method e =
      Inr (''validation error for '' @ strings_Join (name el # fieldPaths) ''.'' @
           (if val = NilValue then [] else '' (value: '' @ fmt_v val @ '')'') @
           '': '' @ m)"
    by (simp add: e_def)
  moreover have "errors_Is e ErrFieldInvalid"
    unfolding e_def by (rule errors_Is_WrapError_cause [OF sentinels_not_nil(2)])
  ultimately show ?thesis using m by blast
qed

theorem Invalid_records_witness:
  "(\<exists>e m. validationErrorList_Invalid 4 \<lparr>name = ''Repository'', errs = []\<rparr>
        (Value ''unknown'') [''Visibility''] = \<lparr>name = ''Repository'', errs = [e]\<rparr> \<and>
      Error_method ErrFieldInvalid = Inr m \<and>
      Error_method e =
        Inr (''validation error for Repository.Visibility (value: unknown): '' @ m) \<and>
      errors_Is e ErrFieldInvalid) \<and>
   (\<exists>e m. validationErrorList_Invalid 4 \<lparr>name = ''Repository'', errs = []\<rparr>
        NilValue [''Visibility''] = \<lparr>name = ''Repository'', errs = [e]\<rparr> \<and>
      Error_method ErrFieldInvalid = Inr m \<and>
      Error_method e = Inr (''validation error for Repository.Visibility: '' @ m) \<and>
      errors_Is e ErrFieldInvalid)"
  using Invalid_records [of 4 "\<lparr>name = ''Repository'', errs = []\<rparr>" "Value ''unknown''"
      "[''Visibility'']"]
    Invalid_records [of 4 "\<lparr>name = ''Repository'', errs = []\<rparr>" NilValue
      "[''Visibility'']"]
  by simp

section \<open>Builders reached by recorder calls\<close>

lemma perform_nil:
  "cause c = NilError \<Longrightarrow> perform el c = el"
  by (cases c) (simp_all add: validationErrorList_Required_def validationErrorList_Invalid_def
      Append_nil sentinels_not_nil)

lemma Append_recorded_ex:
  "err \<noteq> NilError \<Longrightarrow>
   \<exists>msg. validationErrorList_Append a el err val fieldPaths =
     el\<lparr>errs := errs el @ [WrapError a msg err]\<rparr>"
  using Append_recorded [of err a el val fieldPaths] by blast

lemma perform_recorded:
  "cause c \<noteq> NilError \<Longrightarrow>
   \<exists>a msg. perform el c = el\<lparr>errs := errs el @ [WrapError a msg (cause c)]\<rparr>"
proof (cases c)
  case (CallRequired a fieldPaths)
  then show ?thesis
    using Append_recorded_ex [OF sentinels_not_nil(1), of a el NilValue fieldPaths]
    by (auto simp: validationErrorList_Required_def)
next
  case (CallInvalid a val fieldPaths)
  then show ?thesis
    using Append_recorded_ex [OF sentinels_not_nil(2), of a el val fieldPaths]
    by (auto simp: validationErrorList_Invalid_def)
next
  case (CallAppend a err val fieldPaths)
  assume "cause c \<noteq> NilError"
  with CallAppend show ?thesis
    using Append_recorded_ex [of err a el val fieldPaths] by auto
qed

lemma recorded_snoc:
  "recorded n (calls @ [c]) = perform (recorded n calls) c"
  by (simp add: recorded_def)

lemma recorded_invariant:
  "list_all wrapped (errs (recorded n calls)) \<and>
   length (errs (recorded n calls)) = failures calls"
proof (induction calls rule: rev_induct)
  case Nil
  show ?case by (simp add: recorded_def newValidationErrorList_def failures_def)
next
  case (snoc c calls)
  show ?case
  proof (cases "cause c = NilError")
    case True
    with snoc show ?thesis
      by (simp add: recorded_snoc perform_nil failures_def)
  next
    case False
    from perform_recorded [OF False, of "recorded n calls"]
    obtain a msg where
      "perform (recorded n calls) c =
         (recorded n calls)\<lparr>errs := errs (recorded n calls) @ [WrapError a msg (cause c)]\<rparr>"
      by blast
    with snoc False show ?thesis
      by (simp add: recorded_snoc failures_def wrapped_def)
  qed
qed

lemma wrapped_filter:
  "list_all wrapped es \<Longrightarrow> filter (\<lambda>e. e \<noteq> NilError) es = es"
  by (induction es) (auto simp: wrapped_def)

lemma wrapped_not_nil: "wrapped e \<Longrightarrow> e \<noteq> NilError"
  by (auto simp: wrapped_def)

lemma wrapped_WrapError: "wrapped e \<Longrightarrow> \<exists>a msg c. e = WrapError a msg c"
  by (cases e) (auto simp: wrapped_def)

lemma recorded_Error:
  "validationErrorList_Error b (recorded n calls) =
     (case errs (recorded n calls) of
        [] \<Rightarrow> NilError
      | [e] \<Rightarrow> e
      | e # e' # rest \<Rightarrow> MultiErrorPtr b (MultiError (e # e' # rest)))"
  using recorded_invariant [of n calls]
  by (simp add: validationErrorList_Error_filter wrapped_filter)

text \<open>
  Claim C10. Every error that \<^verbatim>\<open>Append\<close> appends, and so every error that \<^verbatim>\<open>Required\<close>
  and \<^verbatim>\<open>Invalid\<close> append, is a non-nil wrapped error. The list of a builder that was
  created empty and changed by recorder calls only never holds a nil entry, the nil
  filter of \<^verbatim>\<open>Error()\<close> removes nothing from it, and \<^verbatim>\<open>Error()\<close> returns nil exactly
  when no call recorded a failure, that is, when every call had a nil cause.
\<close>

theorem recorded_never_nil:
  "(err \<noteq> NilError \<longrightarrow>
      (\<exists>msg. errs (validationErrorList_Append a el err val fieldPaths) =
         errs el @ [WrapError a msg err])) \<and>
   (\<forall>e \<in> set (errs (recorded n calls)). \<exists>a' msg c. e = WrapError a' msg c \<and> c \<noteq> NilError) \<and>
   NilError \<notin> set (errs (recorded n calls)) \<and>
   filteredErrs_range (errs (recorded n calls)) [] = errs (recorded n calls) \<and>
   (validationErrorList_Error b (recorded n calls) = NilError \<longleftrightarrow> failures calls = 0) \<and>
   (failures calls = 0 \<longleftrightarrow> (\<forall>c \<in> set calls. cause c = NilError))"
proof -
  let ?es = "errs (recorded n calls)"
  have inv: "list_all wrapped ?es" "length ?es = failures calls"
    using recorded_invariant [of n calls] by simp_all
  have 1: "err \<noteq> NilError \<longrightarrow>
      (\<exists>msg. errs (validationErrorList_Append a el err val fieldPaths) =
         errs el @ [WrapError a msg err])"
    by (simp add: Append_recorded)
  have 2: "\<forall>e \<in> set ?es. \<exists>a' msg c. e = WrapError a' msg c \<and> c \<noteq> NilError"
  proof
    fix e assume "e \<in> set ?es"
    with inv(1) have "wrapped e" by (simp add: list_all_iff)
    then show "\<exists>a' msg c. e = WrapError a' msg c \<and> c \<noteq> NilError"
      by (cases e) (simp_all add: wrapped_def)
  qed
  have 3: "NilError \<notin> set ?es"
    using 2 by blast
  have 4: "filteredErrs_range ?es [] = ?es"
    using inv(1) by (simp add: filteredErrs_range_filter wrapped_filter)
  have 5: "validationErrorList_Error b (recorded n calls) = NilError \<longleftrightarrow> failures calls = 0"
  proof (cases ?es)
    case Nil
    with inv(2) show ?thesis by (simp add: recorded_Error)
  next
    case (Cons e rest)
    with 3 have "e \<noteq> NilError" by auto
    with Cons inv(2) show ?thesis
      by (cases rest) (auto simp: recorded_Error)
  qed
  have 6: "failures calls = 0 \<longleftrightarrow> (\<forall>c \<in> set calls. cause c = NilError)"
    by (simp add: failures_def filter_empty_conv)
  from 1 2 3 4 5 6 show ?thesis by blast
qed

theorem recorded_never_nil_witness:
  "NilError \<notin> set (errs (recorded ''DeployKey''
       [CallRequired 4 [''Name''], CallAppend 5 NilError NilValue [''Repository''],
        CallInvalid 6 (Value ''7'') [''Key'']])) \<and>
   validationErrorList_Error 9 (recorded ''DeployKey''
       [CallAppend 5 NilError NilValue [''Repository'']]) = NilError \<and>
   validationErrorList_Error 9 (recorded ''DeployKey''
       [CallAppend 5 NilError NilValue [''Repository''], CallRequired 4 [''Name'']]) \<noteq> NilError \<and>
   (\<exists>msg. errs (validationErrorList_Append 4 \<lparr>name = ''DeployKey'', errs = []\<rparr>
       (ErrorString 7 ''cause'') NilValue [''Key'']) = [WrapError 4 msg (ErrorString 7 ''cause'')])"
  using recorded_never_nil [of "ErrorString 7 ''cause''" 4 "\<lparr>name = ''DeployKey'', errs = []\<rparr>"
      NilValue "[''Key'']" "''DeployKey''"
      "[CallRequired 4 [''Name''], CallAppend 5 NilError NilValue [''Repository''],
        CallInvalid 6 (Value ''7'') [''Key'']]" 9]
    recorded_never_nil [of NilError 4 "\<lparr>name = ''DeployKey'', errs = []\<rparr>"
      NilValue "[''Key'']" "''DeployKey''" "[CallAppend 5 NilError NilValue [''Repository'']]" 9]
    recorded_never_nil [of NilError 4 "\<lparr>name = ''DeployKey'', errs = []\<rparr>"
      NilValue "[''Key'']" "''DeployKey''"
      "[CallAppend 5 NilError NilValue [''Repository''], CallRequired 4 [''Name'']]" 9]
  by (simp add: failures_def sentinels_not_nil)

text \<open>
  Claim C2. For every sequence of recorder calls on a new builder, a \<^verbatim>\<open>*MultiError\<close>
  that \<^verbatim>\<open>Error()\<close> returns is the one it has just allocated, holds all the recorded
  errors, at least two of them and none of them nil, and is returned exactly when two or
  more failures were recorded. A single recorded failure is returned as the wrapped
  error itself, not inside an aggregate of one element.
\<close>

theorem aggregate_only_for_two_or_more:
  fixes n :: string and calls :: "recorder_call list" and b :: addr
  defines "r \<equiv> validationErrorList_Error b (recorded n calls)"
  shows "(\<forall>d me. r = MultiErrorPtr d me \<longrightarrow>
            d = b \<and> Errors me = errs (recorded n calls) \<and> 2 \<le> length (Errors me) \<and>
            NilError \<notin> set (Errors me) \<and> 2 \<le> failures calls) \<and>
         (2 \<le> failures calls \<longrightarrow> r = MultiErrorPtr b (MultiError (errs (recorded n calls)))) \<and>
         (failures calls = 1 \<longrightarrow>
            (\<exists>a msg c. r = WrapError a msg c) \<and> errs (recorded n calls) = [r])"
proof -
  let ?es = "errs (recorded n calls)"
  have inv: "list_all wrapped ?es" "length ?es = failures calls"
    using recorded_invariant [of n calls] by simp_all
  have nonnil: "NilError \<notin> set ?es"
    using inv(1) wrapped_not_nil by (auto simp: list_all_iff)
  show ?thesis
  proof (cases ?es)
    case Nil
    with inv(2) show ?thesis by (simp add: r_def recorded_Error)
  next
    case (Cons e rest)
    note outer = Cons
    show ?thesis
    proof (cases rest)
      case Nil
      from inv(1) outer Nil have "wrapped e" by simp
      then obtain a msg c where "e = WrapError a msg c"
        using wrapped_WrapError by blast
      with inv(2) outer Nil show ?thesis by (simp add: r_def recorded_Error)
    next
      case (Cons e' rest')
      with inv(2) outer nonnil show ?thesis by (simp add: r_def recorded_Error)
    qed
  qed
qed

theorem aggregate_only_for_two_or_more_witness:
  "failures [CallRequired 4 [''Name''], CallAppend 5 NilError NilValue [''Repository''],
        CallInvalid 6 (Value ''7'') [''Key'']] = 2 \<and>
   validationErrorList_Error 9 (recorded ''DeployKey''
       [CallRequired 4 [''Name''], CallAppend 5 NilError NilValue [''Repository''],
        CallInvalid 6 (Value ''7'') [''Key'']]) =
     MultiErrorPtr 9 (MultiError (errs (recorded ''DeployKey''
       [CallRequired 4 [''Name''], CallAppend 5 NilError NilValue [''Repository''],
        CallInvalid 6 (Value ''7'') [''Key'']]))) \<and>
   failures [CallAppend 5 NilError NilValue [''Repository''], CallRequired 4 [''Name'']] = 1 \<and>
   (\<exists>a msg c. validationErrorList_Error 9 (recorded ''DeployKey''
       [CallAppend 5 NilError NilValue [''Repository''], CallRequired 4 [''Name'']]) =
       WrapError a msg c)"
  using aggregate_only_for_two_or_more [of 9 "''DeployKey''"
      "[CallRequired 4 [''Name''], CallAppend 5 NilError NilValue [''Repository''],
        CallInvalid 6 (Value ''7'') [''Key'']]"]
    aggregate_only_for_two_or_more [of 9 "''DeployKey''"
      "[CallAppend 5 NilError NilValue [''Repository''], CallRequired 4 [''Name'']]"]
  by (simp add: failures_def sentinels_not_nil)

section \<open>The rendering of an aggregate\<close>

lemma MultiError_Error_range_renders:
  "map Error_method es = map Inr texts \<Longrightarrow>
   MultiError_Error_range es acc =
     Inr (acc @ concat (map (\<lambda>s. CHR 0x0A # ''- '' @ s) texts))"
proof (induction es arbitrary: texts acc)
  case Nil
  then show ?case by simp
next
  case (Cons x xs)
  then obtain s rest where "texts = s # rest" "Error_method x = Inr s"
    "map Error_method xs = map Inr rest"
    by (cases texts) auto
  with Cons.IH [of rest] show ?case by simp
qed

lemma wrapped_renders:
  "list_all wrapped es \<Longrightarrow> \<exists>texts. map Error_method es = map Inr texts"
proof (induction es)
  case Nil
  then show ?case by simp
next
  case (Cons x xs)
  then obtain texts where "map Error_method xs = map Inr texts" by auto
  moreover from Cons.prems have "wrapped x" by simp
  then obtain a msg c where "x = WrapError a msg c"
    using wrapped_WrapError by blast
  ultimately have "map Error_method (x # xs) = map Inr (msg # texts)" by simp
  then show ?case by blast
qed

lemma recorded_append:
  "\<exists>new. errs (recorded n (calls @ later)) = errs (recorded n calls) @ new"
proof (induction later rule: rev_induct)
  case Nil
  then show ?case by simp
next
  case (snoc c later)
  then obtain new where new: "errs (recorded n (calls @ later)) = errs (recorded n calls) @ new"
    by blast
  show ?case
  proof (cases "cause c = NilError")
    case True
    with new show ?thesis
      using recorded_snoc [of n "calls @ later" c] by (simp add: perform_nil)
  next
    case False
    from perform_recorded [OF False, of "recorded n (calls @ later)"] new
    show ?thesis
      using recorded_snoc [of n "calls @ later" c] by auto
  qed
qed

text \<open>
  A held entry may be nil: \<^verbatim>\<open>&MultiError{Errors: []error{nil}}\<close> is a value of the
  exported type. The loop of \<^verbatim>\<open>MultiError.Error\<close> calls \<^verbatim>\<open>err.Error()\<close> on the nil
  interface, so the method panics and renders nothing. The builder never makes such an
  aggregate, because \<^verbatim>\<open>validationErrorList.Error\<close> filters nil entries out.
\<close>

theorem MultiError_Error_nil_entry:
  "MultiError_Error (MultiError [NilError]) = Inl NilPointerDereference"
  by simp

text \<open>
  Claim C8, amended. For every \<^verbatim>\<open>*MultiError\<close> whose held errors all have a string
  rendering, in particular for every aggregate that a builder returns, \<^verbatim>\<open>Error()\<close> is
  the header \<^verbatim>\<open>multiple errors occurred: \<close> followed by one bullet line per held error,
  a line feed, \<^verbatim>\<open>- \<close> and that error's own rendering, in the order in which the errors
  are held. A builder holds its errors in the order of the recorder calls: later calls
  only append behind what is recorded.
\<close>

theorem MultiError_Error_bullets:
  "(map Error_method (Errors e) = map Inr texts \<longrightarrow>
      MultiError_Error e =
        Inr (''multiple errors occurred: '' @
             concat (map (\<lambda>s. CHR 0x0A # ''- '' @ s) texts))) \<and>
   (2 \<le> failures calls \<longrightarrow>
      (\<exists>texts. map Error_method (errs (recorded n calls)) = map Inr texts \<and>
         Error_method (validationErrorList_Error b (recorded n calls)) =
           Inr (''multiple errors occurred: '' @
                concat (map (\<lambda>s. CHR 0x0A # ''- '' @ s) texts)))) \<and>
   (\<exists>new. errs (recorded n (calls @ later)) = errs (recorded n calls) @ new)"
proof -
  have 1: "map Error_method (Errors e) = map Inr texts \<longrightarrow>
      MultiError_Error e =
        Inr (''multiple errors occurred: '' @
             concat (map (\<lambda>s. CHR 0x0A # ''- '' @ s) texts))"
    by (cases e) (simp add: MultiError_Error_range_renders)
  have 2: "2 \<le> failures calls \<longrightarrow>
      (\<exists>texts. map Error_method (errs (recorded n calls)) = map Inr texts \<and>
         Error_method (validationErrorList_Error b (recorded n calls)) =
           Inr (''multiple errors occurred: '' @
                concat (map (\<lambda>s. CHR 0x0A # ''- '' @ s) texts)))"
  proof
    assume two: "2 \<le> failures calls"
    let ?es = "errs (recorded n calls)"
    have inv: "list_all wrapped ?es" "length ?es = failures calls"
      using recorded_invariant [of n calls] by simp_all
    obtain texts where texts: "map Error_method ?es = map Inr texts"
      using wrapped_renders [OF inv(1)] by blast
    from two inv(2) obtain x y rest where "?es = x # y # rest"
      by (cases ?es; cases "tl ?es") auto
    then have "validationErrorList_Error b (recorded n calls) = MultiErrorPtr b (MultiError ?es)"
      by (simp add: recorded_Error)
    with texts show "\<exists>texts. map Error_method ?es = map Inr texts \<and>
         Error_method (validationErrorList_Error b (recorded n calls)) =
           Inr (''multiple errors occurred: '' @
                concat (map (\<lambda>s. CHR 0x0A # ''- '' @ s) texts))"
      by (simp add: MultiError_Error_range_renders)
  qed
  from 1 2 recorded_append [of n calls later] show ?thesis by blast
qed

theorem MultiError_Error_bullets_witness:
  "MultiError_Error (MultiError [ErrorString 1 ''FieldRequired'',
       WrapError 4 ''validation error for DeployKey.Key: FieldRequired''
         (ErrorString 1 ''FieldRequired'')]) =
     Inr (''multiple errors occurred: '' @ [CHR 0x0A] @ ''- FieldRequired'' @ [CHR 0x0A] @
          ''- validation error for DeployKey.Key: FieldRequired'') \<and>
   (\<exists>texts. map Error_method (errs (recorded ''DeployKey''
         [CallRequired 4 [''Name''], CallRequired 5 [''Key'']])) = map Inr texts \<and>
      Error_method (validationErrorList_Error 9 (recorded ''DeployKey''
         [CallRequired 4 [''Name''], CallRequired 5 [''Key'']])) =
        Inr (''multiple errors occurred: '' @
             concat (map (\<lambda>s. CHR 0x0A # ''- '' @ s) texts)))"
  using MultiError_Error_bullets [of "MultiError [ErrorString 1 ''FieldRequired'',
       WrapError 4 ''validation error for DeployKey.Key: FieldRequired''
         (ErrorString 1 ''FieldRequired'')]"
      "[''FieldRequired'', ''validation error for DeployKey.Key: FieldRequired'']"
      "[CallRequired 4 [''Name''], CallRequired 5 [''Key'']]" "''DeployKey''" 9 "[]"]
  by (simp add: failures_def sentinels_not_nil)

section \<open>The deploy-key scenario\<close>

text \<open>
  Claim C9. Validating for Create a deploy-key record whose name and key material are
  both empty (and that refers to no repository) returns an aggregate: \<^verbatim>\<open>errors.Is\<close>
  matches it against any \<^verbatim>\<open>*MultiError\<close>. It holds exactly two errors; \<^verbatim>\<open>errors.Is\<close>
  finds \<^verbatim>\<open>ErrFieldRequired\<close> in both, and their field paths are \<^verbatim>\<open>DeployKey.Name\<close> and
  \<^verbatim>\<open>DeployKey.Key\<close>.
\<close>

theorem DeployKey_ValidateCreate_empty:
  "\<exists>e1 e2 m.
     DeployKey_ValidateCreate validateRef h \<lparr>Name = [], Key = [], Repository = None\<rparr> =
       MultiErrorPtr (h + 3) (MultiError [e1, e2]) \<and>
     errors_Is (MultiErrorPtr (h + 3) (MultiError [e1, e2])) (MultiErrorPtr b other) \<and>
     Error_method ErrFieldRequired = Inr m \<and>
     Error_method e1 = Inr (''validation error for DeployKey.Name: '' @ m) \<and>
     Error_method e2 = Inr (''validation error for DeployKey.Key: '' @ m) \<and>
     errors_Is e1 ErrFieldRequired \<and> errors_Is e2 ErrFieldRequired"
proof -
  obtain m where m: "Error_method ErrFieldRequired = Inr m"
    by (simp add: ErrFieldRequired_def)
  define e1 where "e1 = WrapError h (''validation error for DeployKey.Name: '' @ m) ErrFieldRequired"
  define e2 where "e2 = WrapError (h + 1) (''validation error for DeployKey.Key: '' @ m) ErrFieldRequired"
  have "DeployKey_ValidateCreate validateRef h \<lparr>Name = [], Key = [], Repository = None\<rparr> =
       MultiErrorPtr (h + 3) (MultiError [e1, e2])"
    using m
    by (simp add: DeployKey_ValidateCreate_def validationErrorList_Required_def
        Append_recorded sentinels_not_nil newValidationErrorList_def
        validationErrorList_Error_filter fmt_error_operand_def e1_def e2_def)
  moreover have "errors_Is (MultiErrorPtr (h + 3) (MultiError [e1, e2])) (MultiErrorPtr b other)"
    by simp
  moreover have "errors_Is e1 ErrFieldRequired" "errors_Is e2 ErrFieldRequired"
    unfolding e1_def e2_def by (rule errors_Is_WrapError_cause [OF sentinels_not_nil(1)])+
  moreover have "Error_method e1 = Inr (''validation error for DeployKey.Name: '' @ m)"
    "Error_method e2 = Inr (''validation error for DeployKey.Key: '' @ m)"
    by (simp_all add: e1_def e2_def)
  ultimately show ?thesis using m by blast
qed

theorem DeployKey_ValidateCreate_empty_witness:
  "\<exists>e1 e2 m.
     DeployKey_ValidateCreate (\<lambda>r :: unit. NilError) 10
       \<lparr>Name = [], Key = [], Repository = None\<rparr> = MultiErrorPtr 13 (MultiError [e1, e2]) \<and>
     errors_Is (MultiErrorPtr 13 (MultiError [e1, e2])) (MultiErrorPtr 0 (MultiError [])) \<and>
     Error_method ErrFieldRequired = Inr m \<and>
     Error_method e1 = Inr (''validation error for DeployKey.Name: '' @ m) \<and>
     Error_method e2 = Inr (''validation error for DeployKey.Key: '' @ m) \<and>
     errors_Is e1 ErrFieldRequired \<and> errors_Is e2 ErrFieldRequired"
  using DeployKey_ValidateCreate_empty [of "\<lambda>r :: unit. NilError" 10 0 "MultiError []"]
  by simp

end
